theory Spec2Isabelle
  imports
    Complex_Main
    "HOL-Library.Char_ord"
    "HOL-Library.List_Lexorder"
    "HOL-Library.Multiset"
begin

section \<open>Python values used by the package\<close>

text \<open>
  Strings are \<^typ>\<open>string\<close>; the text handled here (endpoint files, DNS names) is
  ASCII, one \<^typ>\<open>char\<close> per code point. With \<open>Char_ord\<close> and \<open>List_Lexorder\<close> the
  order on strings is the lexicographic order by code point, which is the order Python's
  \<^verbatim>\<open>sorted\<close> uses on \<^verbatim>\<open>str\<close>.

  A Python \<^verbatim>\<open>float\<close> is a finite binary64 value, an infinity or a NaN. Every finite
  double is a real number and comparison of doubles is exact, so finite values are
  embedded in \<^typ>\<open>real\<close>; the two infinities and NaN are separate constructors.
\<close>

datatype pyfloat = NaN | NegInf | Fin real | PosInf

text \<open>\<^verbatim>\<open>a < b\<close> on floats: false as soon as one side is NaN.\<close>

fun fl_lt :: "pyfloat \<Rightarrow> pyfloat \<Rightarrow> bool" where
  "fl_lt NaN y = False"
| "fl_lt x NaN = False"
| "fl_lt NegInf NegInf = False"
| "fl_lt NegInf y = True"
| "fl_lt (Fin a) NegInf = False"
| "fl_lt (Fin a) (Fin b) = (a < b)"
| "fl_lt (Fin a) PosInf = True"
| "fl_lt PosInf y = False"

text \<open>\<^verbatim>\<open>a >= b\<close> on floats: false as soon as one side is NaN.\<close>

fun fl_ge :: "pyfloat \<Rightarrow> pyfloat \<Rightarrow> bool" where
  "fl_ge NaN y = False"
| "fl_ge x NaN = False"
| "fl_ge x NegInf = True"
| "fl_ge NegInf y = False"
| "fl_ge PosInf y = True"
| "fl_ge (Fin a) (Fin b) = (b \<le> a)"
| "fl_ge (Fin a) PosInf = False"

text \<open>Exceptions that the modelled code raises and catches, as values.\<close>

datatype exn = ZeroDivisionError | AttributeError | JSONDecodeError | RequestException

text \<open>
  \<^verbatim>\<open>str.isspace\<close> on ASCII: TAB, LF, VT, FF, CR, the separators 0x1C..0x1F and the
  space. \<^verbatim>\<open>str.strip()\<close> removes these at both ends, and the regular expression
  class \<^verbatim>\<open>\s\<close> of a \<^verbatim>\<open>str\<close> pattern matches the same characters.
\<close>

definition py_whitespace :: "char list" where
  "py_whitespace =
     [CHR 0x09, CHR 0x0A, CHR 0x0B, CHR 0x0C, CHR 0x0D,
      CHR 0x1C, CHR 0x1D, CHR 0x1E, CHR 0x1F, CHR 0x20]"

definition isspace :: "char \<Rightarrow> bool" where
  "isspace c = (c \<in> set py_whitespace)"

definition strip :: "string \<Rightarrow> string" where
  "strip s = rev (dropWhile isspace (rev (dropWhile isspace s)))"

text \<open>\<^verbatim>\<open>s.startswith(p)\<close>.\<close>

definition startswith :: "string \<Rightarrow> string \<Rightarrow> bool" where
  "startswith s p = (take (length p) s = p)"

text \<open>\<^verbatim>\<open>needle in hay\<close> on strings: some suffix of \<open>hay\<close> starts with \<open>needle\<close>.\<close>

fun contains :: "string \<Rightarrow> string \<Rightarrow> bool" where
  "contains [] needle = (needle = [])"
| "contains (c # cs) needle = (startswith (c # cs) needle \<or> contains cs needle)"

text \<open>\<^verbatim>\<open>str.lower()\<close> on ASCII.\<close>

definition lower_char :: "char \<Rightarrow> char" where
  "lower_char c =
     (case map_of (zip ''ABCDEFGHIJKLMNOPQRSTUVWXYZ'' ''abcdefghijklmnopqrstuvwxyz'') c of
        Some l \<Rightarrow> l
      | None \<Rightarrow> c)"

definition lower :: "string \<Rightarrow> string" where
  "lower s = map lower_char s"

section \<open>cli.py: classify_status\<close>

definition classify_status :: "bool \<Rightarrow> pyfloat \<Rightarrow> pyfloat \<Rightarrow> string" where
  "classify_status success latency_ms threshold =
     (if success \<and> fl_lt latency_ms threshold then ''COLO''
      else if success then ''SLOW''
      else ''FAIL'')"

section \<open>parser.py: parse_constants\<close>

record EndpointConstant =
  constant_name :: string
  category :: string
  domain :: string

text \<open>The class \<^verbatim>\<open>\w\<close> on ASCII: letters, digits and the underscore.\<close>

definition is_word :: "char \<Rightarrow> bool" where
  "is_word c =
     (c \<in> set ''abcdefghijklmnopqrstuvwxyzABCDEFGHIJKLMNOPQRSTUVWXYZ0123456789_'')"

text \<open>The rest of \<open>s\<close> after the literal \<open>p\<close>, when \<open>s\<close> starts with it.\<close>

definition after_literal :: "string \<Rightarrow> string \<Rightarrow> string option" where
  "after_literal p s = (if startswith s p then Some (drop (length p) s) else None)"

text \<open>
  The group \<^verbatim>\<open>(https?://|wss://)\<close>: the text it matches and the rest of the input.
  After \<^verbatim>\<open>http\<close> the optional \<^verbatim>\<open>s\<close> is tried first, then skipped.
\<close>

definition scheme :: "string \<Rightarrow> (string \<times> string) option" where
  "scheme s =
     (case after_literal ''http'' s of
        Some r \<Rightarrow>
          (case after_literal ''s://'' r of
             Some r' \<Rightarrow> Some (''https://'', r')
           | None \<Rightarrow>
               (case after_literal ''://'' r of
                  Some r' \<Rightarrow> Some (''http://'', r')
                | None \<Rightarrow> None))
      | None \<Rightarrow>
          (case after_literal ''wss://'' s of
             Some r' \<Rightarrow> Some (''wss://'', r')
           | None \<Rightarrow> None))"

text \<open>
  The pattern \<^verbatim>\<open>(\w+)\s*=\s*"(https?://|wss://)([^"/]+)\<close> matched at the start of
  \<open>s\<close>; the result is groups 1, 2 and 3. Each greedy repetition is followed by a
  character outside its own class (\<^verbatim>\<open>=\<close> or \<^verbatim>\<open>"\<close> is neither a word character nor
  white space), or ends the pattern, so only the longest run can lead to a match and
  backtracking into a shorter run never succeeds.
\<close>

definition match_at :: "string \<Rightarrow> (string \<times> string \<times> string) option" where
  "match_at s =
     (let g1 = takeWhile is_word s in
      if g1 = [] then None
      else
        (case dropWhile isspace (dropWhile is_word s) of
           [] \<Rightarrow> None
         | e # r2 \<Rightarrow>
             if e \<noteq> CHR ''='' then None
             else
               (case dropWhile isspace r2 of
                  [] \<Rightarrow> None
                | q # r3 \<Rightarrow>
                    if q \<noteq> CHR 0x22 then None
                    else
                      (case scheme r3 of
                         None \<Rightarrow> None
                       | Some (g2, r4) \<Rightarrow>
                           (let g3 = takeWhile (\<lambda>c. c \<noteq> CHR 0x22 \<and> c \<noteq> CHR ''/'') r4 in
                            if g3 = [] then None else Some (g1, g2, g3))))))"

text \<open>\<^verbatim>\<open>pattern.search(line)\<close>: the match at the leftmost position that has one.\<close>

fun search :: "string \<Rightarrow> (string \<times> string \<times> string) option" where
  "search [] = match_at []"
| "search (c # cs) =
     (case match_at (c # cs) of
        Some m \<Rightarrow> Some m
      | None \<Rightarrow> search cs)"

text \<open>
  \<^verbatim>\<open>category or "Unknown"\<close>: \<^verbatim>\<open>None\<close> and the empty string are both falsy.
\<close>

definition or_unknown :: "string option \<Rightarrow> string" where
  "or_unknown cat =
     (case cat of
        None \<Rightarrow> ''Unknown''
      | Some c \<Rightarrow> if c = [] then ''Unknown'' else c)"

text \<open>
  One iteration of the loop over the file's lines. The state is the variable
  \<^verbatim>\<open>category\<close> (\<open>None\<close> until the first category line) and the list \<^verbatim>\<open>constants\<close>.
\<close>

fun parse_line ::
  "string option \<times> EndpointConstant list \<Rightarrow> string \<Rightarrow> string option \<times> EndpointConstant list"
where
  "parse_line (cat, constants) raw =
     (let line = strip raw in
      if startswith line ''#'' then (Some (strip (drop 1 line)), constants)
      else
        (case search line of
           Some (g1, g2, g3) \<Rightarrow>
             (cat,
              constants @
                [\<lparr>constant_name = g1, category = or_unknown cat, domain = g3\<rparr>])
         | None \<Rightarrow> (cat, constants)))"

text \<open>The first branch of the loop body is taken: the line sets the category.\<close>

definition category_line :: "string \<Rightarrow> bool" where
  "category_line raw = startswith (strip raw) ''#''"

text \<open>The argument is the file as the lines that iterating over it yields.\<close>

definition parse_constants :: "string list \<Rightarrow> EndpointConstant list" where
  "parse_constants lines = snd (foldl parse_line (None, []) lines)"

section \<open>network.py\<close>

text \<open>
  \<^verbatim>\<open>resolve_ips\<close>. The argument is what \<^verbatim>\<open>dns.resolver.resolve(domain, "A")\<close> did:
  \<open>None\<close> when it raised (NXDOMAIN, no answer, timeout, ...), otherwise the text of the
  records of the answer, in the answer's order.
\<close>

definition resolve_ips :: "string list option \<Rightarrow> string list" where
  "resolve_ips answer =
     (let ips =
        (case answer of
           None \<Rightarrow> {}
         | Some records \<Rightarrow> fold (\<lambda>record ips. insert record ips) records {})
      in sorted_list_of_set ips)"

text \<open>
  \<^verbatim>\<open>reverse_dns_aws\<close>. The argument is what the two calls in the \<^verbatim>\<open>try\<close> block did:
  \<open>None\<close> when either raised, otherwise the text of the first PTR record.
\<close>

definition reverse_dns_aws :: "string option \<Rightarrow> string" where
  "reverse_dns_aws answer =
     (case answer of
        None \<Rightarrow> ''No PTR''
      | Some record \<Rightarrow>
          (let ptr = lower record in
           if contains ptr ''ap-northeast-1'' then
             (let letters = filter (\<lambda>c. c \<in> set ''abcdef'') ptr;
                  az = (if letters = [] then ''?'' else letters)
              in ''AWS TOKYO ap-northeast-1'' @ az)
           else take 50 ptr))"

text \<open>
  \<^verbatim>\<open>test_latency\<close>. What the network and the clock did is an argument: the exception
  raised inside the \<^verbatim>\<open>with\<close> block, if any (\<open>None\<close>: the connection was made and
  the TLS handshake completed), and the value that the expression
  \<^verbatim>\<open>round((time.perf_counter() - start) * 1000, 2)\<close> has in the branch that is taken.
  That value is a finite double and is carried as the real number it denotes; the clock
  and the binary64 arithmetic that produce it are not modelled. The statements before
  the \<^verbatim>\<open>try\<close> (creating the TLS context and relaxing its checks) touch no network
  and are taken to succeed. Port and timeout only select what the network does, so they
  are not arguments of the model.
\<close>

datatype conn_failure = ConnectTimeout | ConnectionRefused | HandshakeError

record handshake_obs =
  measured_ms :: real
  failure :: "conn_failure option"

record LatencyResult =
  ip :: string
  latency_ms :: real
  success :: bool

definition test_latency :: "string \<Rightarrow> string \<Rightarrow> handshake_obs \<Rightarrow> LatencyResult" where
  "test_latency ip_addr sni obs =
     (case failure obs of
        None \<Rightarrow>
          (let latency = measured_ms obs in
           \<lparr>ip = ip_addr, latency_ms = latency, success = True\<rparr>)
      | Some e \<Rightarrow>
          (let latency = measured_ms obs in
           \<lparr>ip = ip_addr, latency_ms = latency, success = False\<rparr>))"

section \<open>geo.py: get_geo\<close>

text \<open>
  A parsed JSON value. An object keeps its members in the order of the body;
  \<^verbatim>\<open>json\<close> builds the \<^verbatim>\<open>dict\<close> by inserting them in that order, so the last member
  with a given key is the one a lookup finds.
\<close>

datatype json =
    JNull
  | JBool bool
  | JNum real
  | JStr string
  | JArr "json list"
  | JObj "(string \<times> json) list"

text \<open>
  What \<^verbatim>\<open>requests.get\<close> did: it raised, or it returned a response with a status
  code and a body, the body given by what \<^verbatim>\<open>response.json()\<close> does with it
  (\<open>None\<close>: it raises, the body is not JSON).
\<close>

datatype http_outcome = TransportError | Response int "json option"

record GeoLocation =
  country :: json
  region :: json
  city :: json

text \<open>\<^verbatim>\<open>data.get(key, default)\<close> on the \<^verbatim>\<open>dict\<close> built from an object's members.\<close>

definition dict_get :: "(string \<times> json) list \<Rightarrow> string \<Rightarrow> json \<Rightarrow> json" where
  "dict_get members key dflt =
     (case map_of (rev members) key of
        Some v \<Rightarrow> v
      | None \<Rightarrow> dflt)"

text \<open>
  The body of the \<^verbatim>\<open>try\<close> block: \<open>Inl\<close> an exception raised in it, \<open>Inr (Some g)\<close> the
  value it returns, \<open>Inr None\<close> when the status is not 200 and control leaves the block.
  \<^verbatim>\<open>.get\<close> exists on a \<^verbatim>\<open>dict\<close> only: on any other JSON value the attribute
  lookup raises \<^verbatim>\<open>AttributeError\<close>.
\<close>

definition get_geo_try :: "http_outcome \<Rightarrow> exn + GeoLocation option" where
  "get_geo_try outcome =
     (case outcome of
        TransportError \<Rightarrow> Inl RequestException
      | Response status_code body \<Rightarrow>
          if status_code = 200 then
            (case body of
               None \<Rightarrow> Inl JSONDecodeError
             | Some (JObj data) \<Rightarrow>
                 Inr (Some \<lparr>country = dict_get data ''country'' (JStr ''Unknown''),
                            region = dict_get data ''region'' (JStr ''Unknown''),
                            city = dict_get data ''city'' (JStr ''Unknown'')\<rparr>)
             | Some other \<Rightarrow> Inl AttributeError)
          else Inr None)"

definition unknown_geo :: GeoLocation where
  "unknown_geo =
     \<lparr>country = JStr ''Unknown'', region = JStr ''Unknown'', city = JStr ''Unknown''\<rparr>"

text \<open>\<^verbatim>\<open>except Exception: pass\<close>, then the final \<^verbatim>\<open>return\<close>.\<close>

definition get_geo :: "http_outcome \<Rightarrow> GeoLocation" where
  "get_geo outcome =
     (case get_geo_try outcome of
        Inr (Some g) \<Rightarrow> g
      | Inr None \<Rightarrow> unknown_geo
      | Inl e \<Rightarrow> unknown_geo)"

section \<open>cli.py: main\<close>

subsection \<open>Resolving each domain\<close>

text \<open>
  The resolver is the network: \<open>dns n d\<close> is what \<^verbatim>\<open>dns.resolver.resolve(d, "A")\<close> does
  when \<open>n\<close> queries have been made before it, so two queries for one domain may be
  answered differently. The state of the loop is \<^verbatim>\<open>domain_ip_map\<close> together with the
  list of the domains \<^verbatim>\<open>resolve_ips\<close> has been called with, oldest first.
\<close>

type_synonym resolver = "nat \<Rightarrow> string \<Rightarrow> string list option"

fun resolve_step ::
  "resolver \<Rightarrow> (string \<rightharpoonup> string list) \<times> string list \<Rightarrow> EndpointConstant
     \<Rightarrow> (string \<rightharpoonup> string list) \<times> string list"
where
  "resolve_step dns (domain_ip_map, queries) endpoint =
     (let d = domain endpoint in
      case domain_ip_map d of
        None \<Rightarrow>
          (domain_ip_map(d \<mapsto> resolve_ips (dns (length queries) d)), queries @ [d])
      | Some ips \<Rightarrow> (domain_ip_map, queries))"

definition resolve_all ::
  "resolver \<Rightarrow> EndpointConstant list \<Rightarrow> (string \<rightharpoonup> string list) \<times> string list"
where
  "resolve_all dns constants = foldl (resolve_step dns) (Map.empty, []) constants"

subsection \<open>Building the target list\<close>

type_synonym target = "string \<times> string \<times> string \<times> string"

text \<open>The inner loop: \<^verbatim>\<open>for ip in domain_ip_map.get(endpoint["domain"], [])\<close>.\<close>

definition endpoint_targets :: "(string \<rightharpoonup> string list) \<Rightarrow> EndpointConstant \<Rightarrow> target list" where
  "endpoint_targets domain_ip_map endpoint =
     map (\<lambda>a. (constant_name endpoint, category endpoint, domain endpoint, a))
       (case domain_ip_map (domain endpoint) of
          None \<Rightarrow> []
        | Some ips \<Rightarrow> ips)"


subsection \<open>Probing and collecting\<close>

record TestResult =
  Constant :: string
  Category :: string
  Domain_name :: string
  IP :: string
  Latency_ms :: real
  Status :: string
  AWS_Region :: string
  Country :: json
  Region :: json
  City :: json

text \<open>
  One future is submitted per element of \<^verbatim>\<open>targets\<close>, and \<^verbatim>\<open>as_completed\<close> yields
  every future once, in the order in which they finish. A completed future is its target
  with what the network did for it: the handshake, the PTR lookup and the geolocation
  request that the body of the loop makes for the probed address.
\<close>

record completion_obs =
  handshake :: handshake_obs
  ptr_answer :: "string option"
  geo_response :: http_outcome

text \<open>The body of the loop; the state is \<^verbatim>\<open>results\<close> and \<^verbatim>\<open>colo_count\<close>.\<close>

fun collect ::
  "pyfloat \<Rightarrow> TestResult list \<times> int \<Rightarrow> target \<times> completion_obs \<Rightarrow> TestResult list \<times> int"
where
  "collect threshold (results, colo_count) ((const, cat, dname, a), obs) =
     (let result = test_latency a dname (handshake obs);
          aws = reverse_dns_aws (ptr_answer obs);
          geo = get_geo (geo_response obs);
          status = classify_status (success result) (Fin (latency_ms result)) threshold;
          colo_count' = (if status = ''COLO'' then colo_count + 1 else colo_count)
      in (results @
            [\<lparr>Constant = const, Category = cat, Domain_name = dname, IP = ip result,
               Latency_ms = latency_ms result, Status = status, AWS_Region = aws,
               Country = country geo, Region = region geo, City = city geo\<rparr>],
          colo_count'))"

definition probe_all ::
  "pyfloat \<Rightarrow> (target \<times> completion_obs) list \<Rightarrow> TestResult list \<times> int"
where
  "probe_all threshold completed = foldl (collect threshold) ([], 0) completed"

subsection \<open>Summary\<close>

text \<open>
  \<^verbatim>\<open>a / b\<close> on two \<^verbatim>\<open>int\<close>s raises \<^verbatim>\<open>ZeroDivisionError\<close> when \<open>b\<close> is 0. The
  quotient and the product are taken in \<^typ>\<open>real\<close>: the rounding of the two float
  operations is not modelled.
\<close>

definition truediv :: "int \<Rightarrow> int \<Rightarrow> exn + real" where
  "truediv a b = (if b = 0 then Inl ZeroDivisionError else Inr (of_int a / of_int b))"

text \<open>\<^verbatim>\<open>(colo_count / total_count * 100) if total_count > 0 else 0\<close>.\<close>

definition colo_percentage :: "int \<Rightarrow> int \<Rightarrow> exn + real" where
  "colo_percentage colo_count total_count =
     (if total_count > 0 then
        (case truediv colo_count total_count of
           Inl e \<Rightarrow> Inl e
         | Inr q \<Rightarrow> Inr (q * 100))
      else Inr 0)"

text \<open>The end of \<^verbatim>\<open>main\<close>: \<^verbatim>\<open>colo_count\<close>, \<^verbatim>\<open>total_count\<close>, \<^verbatim>\<open>colo_percentage\<close>.\<close>

fun main_summary :: "TestResult list \<times> int \<Rightarrow> exn + int \<times> int \<times> real" where
  "main_summary (results, colo_count) =
     (let total_count = int (length results) in
      case colo_percentage colo_count total_count of
        Inl e \<Rightarrow> Inl e
      | Inr p \<Rightarrow> Inr (colo_count, total_count, p))"

section \<open>reporter.py: the summary of generate_html\<close>

definition html_summary :: "TestResult list \<Rightarrow> exn + int \<times> int \<times> real" where
  "html_summary results =
     (let colo_count = sum_list (map (\<lambda>r. 1) (filter (\<lambda>r. Status r = ''COLO'') results));
          total_count = int (length results)
      in case colo_percentage colo_count total_count of
           Inl e \<Rightarrow> Inl e
         | Inr p \<Rightarrow> Inr (colo_count, total_count, p))"

section \<open>Notions used to state the properties\<close>

text \<open>The target a result was built for: the four fields copied from the target tuple.\<close>

definition target_of :: "TestResult \<Rightarrow> target" where
  "target_of r = (Constant r, Category r, Domain_name r, IP r)"

text \<open>The address of a target tuple.\<close>

definition target_ip :: "target \<Rightarrow> string" where
  "target_ip t = snd (snd (snd t))"

text \<open>The results whose status is COLO.\<close>

definition colo_results :: "TestResult list \<Rightarrow> TestResult list" where
  "colo_results results = filter (\<lambda>r. Status r = ''COLO'') results"

section \<open>Properties\<close>

subsection \<open>Status classification\<close>

lemma fl_lt_not_ge: "fl_lt x y \<Longrightarrow> \<not> fl_ge x y"
  by (cases x; cases y) auto

text \<open>
  Claim C2. \<open>classify_status\<close> is a total function of its three arguments with values
  among COLO, SLOW and FAIL: a successful probe whose latency is strictly below the
  threshold is COLO, a successful probe whose latency is at or above the threshold is
  SLOW (so latency equal to the threshold is SLOW), and a failed probe is FAIL whatever
  the latency. The three examples of the specification are instances.
\<close>

theorem classify_status_table:
  "classify_status ok l t \<in> {''COLO'', ''SLOW'', ''FAIL''} \<and>
   (ok \<and> fl_lt l t \<longrightarrow> classify_status ok l t = ''COLO'') \<and>
   (ok \<and> fl_ge l t \<longrightarrow> classify_status ok l t = ''SLOW'') \<and>
   (\<not> ok \<longrightarrow> classify_status ok l t = ''FAIL'') \<and>
   classify_status True (Fin x) (Fin x) = ''SLOW'' \<and>
   classify_status True (Fin 11.99) (Fin 12.0) = ''COLO'' \<and>
   classify_status True (Fin 12.0) (Fin 12.0) = ''SLOW'' \<and>
   classify_status False (Fin 0.0) (Fin 12.0) = ''FAIL''"
  using fl_lt_not_ge [of l t] by (auto simp add: classify_status_def)

theorem classify_status_table_witness:
  "classify_status True (Fin 5) (Fin 12) = ''COLO'' \<and>
   classify_status True (Fin 50) (Fin 12) = ''SLOW'' \<and>
   classify_status False PosInf (Fin 12) = ''FAIL''"
proof -
  have a: "True \<and> fl_lt (Fin 5) (Fin 12)" by simp
  have b: "True \<and> fl_ge (Fin 50) (Fin 12)" by simp
  have c: "\<not> False" by simp
  from classify_status_table [of True "Fin 5" "Fin 12"] a
  have 1: "classify_status True (Fin 5) (Fin 12) = ''COLO''" by blast
  from classify_status_table [of True "Fin 50" "Fin 12"] b
  have 2: "classify_status True (Fin 50) (Fin 12) = ''SLOW''" by blast
  from classify_status_table [of False PosInf "Fin 12"] c
  have 3: "classify_status False PosInf (Fin 12) = ''FAIL''" by blast
  from 1 2 3 show ?thesis by blast
qed

subsection \<open>Resolver\<close>

lemma fold_insert_set: "fold (\<lambda>record ips. insert record ips) rs s = set rs \<union> s"
  by (induction rs arbitrary: s) auto

text \<open>
  Claim C7. When the resolution fails, \<open>resolve_ips\<close> returns the empty list; it has no
  error result. Otherwise it returns the records of the answer without duplicates and
  sorted ascending in the order of strings.
\<close>

theorem resolve_ips_sorted_distinct:
  "resolve_ips None = [] \<and>
   sorted (resolve_ips (Some records)) \<and>
   distinct (resolve_ips (Some records)) \<and>
   set (resolve_ips (Some records)) = set records"
  by (simp add: resolve_ips_def fold_insert_set)

theorem resolve_ips_sorted_distinct_witness:
  "resolve_ips (Some [''9.0.0.1'', ''10.0.0.1'', ''10.0.0.1'']) = [''10.0.0.1'', ''9.0.0.1'']"
proof -
  let ?rs = "[''9.0.0.1'', ''10.0.0.1'', ''10.0.0.1'']"
  from resolve_ips_sorted_distinct [of ?rs]
  have s: "sorted (resolve_ips (Some ?rs))"
    and d: "distinct (resolve_ips (Some ?rs))"
    and e: "set (resolve_ips (Some ?rs)) = set ?rs" by blast+
  have "set [''10.0.0.1'', ''9.0.0.1''] = set ?rs" by auto
  moreover have "sorted [''10.0.0.1'', ''9.0.0.1'']" by code_simp
  moreover have "distinct [''10.0.0.1'', ''9.0.0.1'']" by simp
  ultimately show ?thesis
    using s d e by (metis sorted_distinct_set_unique)
qed

subsection \<open>Parser: category lines\<close>

lemma not_isspace_hash: "\<not> isspace CHR ''#''"
  by (simp add: isspace_def py_whitespace_def)

lemma strip_hash_blank:
  assumes "list_all isspace ws"
  shows "strip (CHR ''#'' # ws) = ''#''"
proof -
  have "dropWhile isspace (rev ws @ ''#'') = dropWhile isspace ''#''"
    using assms by (intro dropWhile_append2) (simp add: list_all_iff)
  then show ?thesis
    by (simp add: strip_def not_isspace_hash)
qed

lemma strip_Nil: "strip [] = []"
  by (simp add: strip_def)

lemma parse_line_hash_blank:
  assumes "list_all isspace ws"
  shows "parse_line (c, acc) (CHR ''#'' # ws) = (Some [], acc)"
  using strip_hash_blank [OF assms] by (simp add: startswith_def strip_Nil)

lemma parse_line_acc:
  "parse_line (c, acc) l = (fst (parse_line (c, []) l), acc @ snd (parse_line (c, []) l))"
  by (simp add: Let_def split: option.splits prod.splits)

lemma foldl_parse_line_acc:
  "foldl parse_line (c, acc) ls =
     (fst (foldl parse_line (c, []) ls), acc @ snd (foldl parse_line (c, []) ls))"
proof (induction ls arbitrary: c acc)
  case Nil
  then show ?case by simp
next
  case (Cons l ls)
  obtain c' new where step: "parse_line (c, []) l = (c', new)"
    by (cases "parse_line (c, []) l")
  then have step': "parse_line (c, acc) l = (c', acc @ new)"
    using parse_line_acc [of c acc l] by simp
  show ?case
    using Cons.IH [of c' "acc @ new"] Cons.IH [of c' new] step step' by simp
qed

lemma parse_constants_append:
  "parse_constants (xs @ ys) =
     parse_constants xs @ snd (foldl parse_line (fst (foldl parse_line (None, []) xs), []) ys)"
proof -
  obtain c acc where st: "foldl parse_line (None, []) xs = (c, acc)"
    by (cases "foldl parse_line (None, []) xs")
  then show ?thesis
    using foldl_parse_line_acc [of c acc ys] by (simp add: parse_constants_def)
qed

lemma parse_line_empty_category:
  "parse_line (Some [], acc) l = parse_line (None, acc) l \<or>
   (\<exists>acc'. parse_line (Some [], acc) l = (Some [], acc') \<and> parse_line (None, acc) l = (None, acc'))"
  by (simp add: Let_def or_unknown_def split: option.splits prod.splits)

lemma foldl_empty_category:
  "snd (foldl parse_line (Some [], acc) ls) = snd (foldl parse_line (None, acc) ls)"
proof (induction ls arbitrary: acc)
  case Nil
  then show ?case by simp
next
  case (Cons l ls)
  from parse_line_empty_category [of acc l] show ?case
  proof
    assume "parse_line (Some [], acc) l = parse_line (None, acc) l"
    then show ?thesis by simp
  next
    assume "\<exists>acc'. parse_line (Some [], acc) l = (Some [], acc') \<and> parse_line (None, acc) l = (None, acc')"
    then obtain acc' where "parse_line (Some [], acc) l = (Some [], acc')"
      and "parse_line (None, acc) l = (None, acc')" by blast
    then show ?thesis using Cons.IH [of acc'] by simp
  qed
qed

lemma foldl_no_category:
  assumes "\<forall>p\<in>set ls. \<not> category_line p"
    and "\<forall>r\<in>set acc. category r = or_unknown c"
  shows "fst (foldl parse_line (c, acc) ls) = c \<and>
         (\<forall>r\<in>set (snd (foldl parse_line (c, acc) ls)). category r = or_unknown c)"
  using assms
proof (induction ls arbitrary: acc)
  case Nil
  then show ?case by simp
next
  case (Cons l ls)
  from Cons.prems have nl: "\<not> startswith (strip l) ''#''"
    by (simp add: category_line_def)
  obtain acc' where step: "parse_line (c, acc) l = (c, acc')"
    and acc': "\<forall>r\<in>set acc'. category r = or_unknown c"
    using nl Cons.prems(2) by (cases "search (strip l)") (auto simp add: Let_def)
  from Cons.prems(1) have "\<forall>p\<in>set ls. \<not> category_line p" by simp
  from Cons.IH [OF this acc'] step show ?case by simp
qed

text \<open>
  Claim C10. A line made of \<open>#\<close> followed only by white space sets the current category
  to the empty string. The records parsed from the lines after it are those that the
  same lines give when no category line stands above them: the whole file parses to the
  records of the lines before it followed by the records of the lines after it parsed
  on their own. In particular every record parsed from the lines after it, up to the
  next category line, has the category \<open>Unknown\<close>.
\<close>

theorem blank_category_is_unknown:
  assumes "list_all isspace ws"
  shows "fst (foldl parse_line (None, []) (pre @ [CHR ''#'' # ws])) = Some [] \<and>
         parse_constants (pre @ (CHR ''#'' # ws) # post) =
           parse_constants pre @ parse_constants post \<and>
         (\<exists>later. parse_constants post =
            parse_constants (takeWhile (\<lambda>p. \<not> category_line p) post) @ later) \<and>
         (\<forall>r\<in>set (parse_constants (takeWhile (\<lambda>p. \<not> category_line p) post)).
            category r = ''Unknown'')"
proof -
  obtain c acc where st: "foldl parse_line (None, []) pre = (c, acc)"
    by (cases "foldl parse_line (None, []) pre")
  have hash: "foldl parse_line (None, []) (pre @ [CHR ''#'' # ws]) = (Some [], acc)"
    using st parse_line_hash_blank [OF assms] by simp
  have "pre @ (CHR ''#'' # ws) # post = (pre @ [CHR ''#'' # ws]) @ post" by simp
  then have "parse_constants (pre @ (CHR ''#'' # ws) # post) =
      parse_constants (pre @ [CHR ''#'' # ws]) @ snd (foldl parse_line (Some [], []) post)"
    using parse_constants_append [of "pre @ [CHR ''#'' # ws]" post] hash by simp
  also have "parse_constants (pre @ [CHR ''#'' # ws]) = parse_constants pre"
    using hash st by (simp add: parse_constants_def)
  also have "snd (foldl parse_line (Some [], []) post) = parse_constants post"
    by (simp add: foldl_empty_category parse_constants_def)
  finally have A: "parse_constants (pre @ (CHR ''#'' # ws) # post) =
      parse_constants pre @ parse_constants post" .
  let ?under = "takeWhile (\<lambda>p. \<not> category_line p) post"
  have "parse_constants (?under @ dropWhile (\<lambda>p. \<not> category_line p) post) =
      parse_constants ?under @
        snd (foldl parse_line (fst (foldl parse_line (None, []) ?under), [])
          (dropWhile (\<lambda>p. \<not> category_line p) post))"
    by (rule parse_constants_append)
  then have B: "\<exists>later. parse_constants post = parse_constants ?under @ later"
    by auto
  have "\<forall>p\<in>set ?under. \<not> category_line p"
    by (auto dest: set_takeWhileD)
  then have C: "\<forall>r\<in>set (parse_constants ?under). category r = ''Unknown''"
    using foldl_no_category [of ?under "[]" None]
    by (simp add: parse_constants_def or_unknown_def)
  from hash A B C show ?thesis by simp
qed

theorem blank_category_is_unknown_witness:
  "list_all isspace ''  '' \<and>
   parse_constants
     ([''# Spot'', ''A = \"https://a.example.com\"''] @
        (CHR ''#'' # ''  '') # [''B = \"https://b.example.com/x\"'']) =
   [\<lparr>constant_name = ''A'', category = ''Spot'', domain = ''a.example.com''\<rparr>,
    \<lparr>constant_name = ''B'', category = ''Unknown'', domain = ''b.example.com''\<rparr>]"
proof -
  let ?pre = "[''# Spot'', ''A = \"https://a.example.com\"'']"
  let ?post = "[''B = \"https://b.example.com/x\"'']"
  have ws: "list_all isspace ''  ''"
    by (simp add: isspace_def py_whitespace_def)
  from blank_category_is_unknown [OF ws, of ?pre ?post]
  have "parse_constants (?pre @ (CHR ''#'' # ''  '') # ?post) =
      parse_constants ?pre @ parse_constants ?post" by blast
  moreover have "parse_constants ?pre =
      [\<lparr>constant_name = ''A'', category = ''Spot'', domain = ''a.example.com''\<rparr>]"
    by code_simp
  moreover have "parse_constants ?post =
      [\<lparr>constant_name = ''B'', category = ''Unknown'', domain = ''b.example.com''\<rparr>]"
    by code_simp
  ultimately show ?thesis using ws by simp
qed

subsection \<open>Parser: the domain of a URL with a port\<close>

text \<open>
  Claim C3. The claim asks that a URL with an explicit port parses to the bare host
  name. Group 3 of the pattern stops only at \<open>/\<close> or at the closing quote, so the port
  stays in the domain: the line below yields the domain \<open>host:9443\<close>, which is later
  handed to the resolver and used as the SNI name.
\<close>

theorem parse_constants_keeps_port:
  "parse_constants [''WS_URL = \"wss://host:9443/stream\"''] =
     [\<lparr>constant_name = ''WS_URL'', category = ''Unknown'', domain = ''host:9443''\<rparr>]"
  by code_simp

subsection \<open>Region classifier\<close>

text \<open>
  Claim C1. The claim asks that a PTR value containing \<open>ap-northeast-1c\<close> is labelled
  exactly \<open>AWS TOKYO ap-northeast-1c\<close>. The comprehension keeps every letter from
  \<open>a\<close> to \<open>f\<close> of the whole PTR value, not the letter that follows the marker, so the
  label ends in all such letters of the name.
\<close>

theorem reverse_dns_aws_keeps_all_letters:
  "reverse_dns_aws (Some ''ec2-54-1-2-3.ap-northeast-1c.compute.amazonaws.com.'') =
     ''AWS TOKYO ap-northeast-1ecaeacceaaac''"
  by code_simp

text \<open>
  The marker itself holds the letters \<open>a\<close>, \<open>e\<close>, \<open>a\<close>: whenever the marker is found,
  the zone part of the label has at least three letters, and the fallback \<open>?\<close> is never
  used.
\<close>

lemma contains_split: "contains s n \<Longrightarrow> \<exists>pre post. s = pre @ n @ post"
proof (induction s)
  case Nil
  then show ?case by simp
next
  case (Cons c cs)
  from Cons.prems have "startswith (c # cs) n \<or> contains cs n" by simp
  then show ?case
  proof
    assume "startswith (c # cs) n"
    then have "c # cs = [] @ n @ drop (length n) (c # cs)"
      unfolding startswith_def by (metis append_Nil append_take_drop_id)
    then show ?thesis by blast
  next
    assume "contains cs n"
    with Cons.IH obtain pre post where "cs = pre @ n @ post" by blast
    then have "c # cs = (c # pre) @ n @ post" by simp
    then show ?thesis by blast
  qed
qed

lemma marker_letters:
  "filter (\<lambda>c. c \<in> set ''abcdef'') ''ap-northeast-1'' = ''aea''"
  by simp

lemma reverse_dns_aws_zone_length:
  assumes "contains (lower record) ''ap-northeast-1''"
  shows "\<exists>az. reverse_dns_aws (Some record) = ''AWS TOKYO ap-northeast-1'' @ az \<and> 3 \<le> length az"
proof -
  let ?P = "\<lambda>c. c \<in> set ''abcdef''"
  from contains_split [OF assms] obtain pre post
    where sp: "lower record = pre @ ''ap-northeast-1'' @ post" by blast
  have "filter ?P (lower record) = filter ?P pre @ ''aea'' @ filter ?P post"
    unfolding sp filter_append marker_letters ..
  then have len: "3 \<le> length (filter ?P (lower record))" by simp
  then have "filter ?P (lower record) \<noteq> []" by auto
  with assms len show ?thesis
    by (simp add: reverse_dns_aws_def Let_def)
qed

subsection \<open>Geolocation\<close>

lemma dict_get_present:
  "key \<in> fst ` set members \<Longrightarrow> (key, dict_get members key dflt) \<in> set members"
proof -
  assume "key \<in> fst ` set members"
  then have "key \<in> fst ` set (rev members)" by simp
  then obtain v where v: "map_of (rev members) key = Some v"
    by (metis domD dom_map_of_conv_image_fst)
  then have "(key, v) \<in> set (rev members)" by (rule map_of_SomeD)
  with v show ?thesis by (simp add: dict_get_def)
qed

lemma dict_get_absent:
  "key \<notin> fst ` set members \<Longrightarrow> dict_get members key dflt = dflt"
proof -
  assume "key \<notin> fst ` set members"
  then have "map_of (rev members) key = None"
    by (simp add: map_of_eq_None_iff)
  then show ?thesis by (simp add: dict_get_def)
qed

lemma dict_get_distinct:
  "distinct (map fst members) \<Longrightarrow> (key, v) \<in> set members \<Longrightarrow> dict_get members key dflt = v"
proof -
  assume d: "distinct (map fst members)" and m: "(key, v) \<in> set members"
  from d have "distinct (map fst (rev members))" by (simp add: rev_map [symmetric])
  moreover from m have "(key, v) \<in> set (rev members)" by simp
  ultimately have "map_of (rev members) key = Some v" by (rule map_of_is_SomeI)
  then show ?thesis by (simp add: dict_get_def)
qed

text \<open>
  Claim C9, as stated, fails: a response with status 200 whose body is valid JSON but
  not an object (here the empty array) gives the all-\<open>Unknown\<close> result, because
  \<^verbatim>\<open>data.get\<close> raises \<^verbatim>\<open>AttributeError\<close>, which the \<^verbatim>\<open>except\<close> clause swallows.
\<close>

theorem get_geo_counterexample:
  "get_geo (Response 200 (Some (JArr []))) =
     \<lparr>country = JStr ''Unknown'', region = JStr ''Unknown'', city = JStr ''Unknown''\<rparr>"
  by (simp add: get_geo_def get_geo_try_def unknown_geo_def)

text \<open>
  Claim C9, amended. For a response with status 200 whose body is a JSON object,
  \<open>get_geo\<close> returns for each of the three keys the value the object gives it, whatever
  its type, and \<open>Unknown\<close> when the object does not have the key. The \<^verbatim>\<open>return\<close>
  inside the \<^verbatim>\<open>try\<close> block is reached exactly for those responses; every other
  outcome (transport error, another status, a body that is not JSON, a JSON body that is
  not an object) gives the all-\<open>Unknown\<close> result.
\<close>

theorem get_geo_cases:
  "get_geo (Response 200 (Some (JObj data))) =
     \<lparr>country = dict_get data ''country'' (JStr ''Unknown''),
      region = dict_get data ''region'' (JStr ''Unknown''),
      city = dict_get data ''city'' (JStr ''Unknown'')\<rparr> \<and>
   (key \<in> fst ` set data \<longrightarrow> (key, dict_get data key dflt) \<in> set data) \<and>
   (distinct (map fst data) \<and> (key, v) \<in> set data \<longrightarrow> dict_get data key dflt = v) \<and>
   (key \<notin> fst ` set data \<longrightarrow> dict_get data key dflt = dflt) \<and>
   ((\<exists>g. get_geo_try outcome = Inr (Some g)) \<longleftrightarrow>
      (\<exists>members. outcome = Response 200 (Some (JObj members)))) \<and>
   ((\<forall>g. get_geo_try outcome \<noteq> Inr (Some g)) \<longrightarrow> get_geo outcome = unknown_geo)"
proof -
  have 1: "get_geo (Response 200 (Some (JObj data))) =
     \<lparr>country = dict_get data ''country'' (JStr ''Unknown''),
      region = dict_get data ''region'' (JStr ''Unknown''),
      city = dict_get data ''city'' (JStr ''Unknown'')\<rparr>"
    by (simp add: get_geo_def get_geo_try_def)
  have 2: "(\<exists>g. get_geo_try outcome = Inr (Some g)) \<longleftrightarrow>
      (\<exists>members. outcome = Response 200 (Some (JObj members)))"
    by (auto simp add: get_geo_try_def split: http_outcome.splits option.splits json.splits if_splits)
  have 3: "(\<forall>g. get_geo_try outcome \<noteq> Inr (Some g)) \<longrightarrow> get_geo outcome = unknown_geo"
    by (auto simp add: get_geo_def split: sum.splits option.splits)
  from 1 2 3 dict_get_present [of key data dflt] dict_get_absent [of key data dflt]
    dict_get_distinct [of data key v dflt]
  show ?thesis by blast
qed

theorem get_geo_cases_witness:
  "get_geo (Response 200 (Some (JObj [(''country'', JNull), (''city'', JStr ''Tokyo'')]))) =
     \<lparr>country = JNull, region = JStr ''Unknown'', city = JStr ''Tokyo''\<rparr> \<and>
   get_geo (Response 404 None) = unknown_geo"
proof -
  let ?data = "[(''country'', JNull), (''city'', JStr ''Tokyo'')]"
  let ?u = "JStr ''Unknown''"
  have d: "distinct (map fst ?data)" by simp
  have "(''country'', JNull) \<in> set ?data" by simp
  with d get_geo_cases [of ?data "''country''" ?u JNull]
  have c: "dict_get ?data ''country'' ?u = JNull" by blast
  have "(''city'', JStr ''Tokyo'') \<in> set ?data" by simp
  with d get_geo_cases [of ?data "''city''" ?u "JStr ''Tokyo''"]
  have t: "dict_get ?data ''city'' ?u = JStr ''Tokyo''" by blast
  have "''region'' \<notin> fst ` set ?data" by simp
  with get_geo_cases [of ?data "''region''" ?u]
  have r: "dict_get ?data ''region'' ?u = ?u" by blast
  from get_geo_cases [of ?data]
  have g: "get_geo (Response 200 (Some (JObj ?data))) =
     \<lparr>country = dict_get ?data ''country'' ?u,
      region = dict_get ?data ''region'' ?u,
      city = dict_get ?data ''city'' ?u\<rparr>" by blast
  have "\<nexists>members. Response 404 None = Response 200 (Some (JObj members))" by simp
  with get_geo_cases [of _ _ _ _ "Response 404 None"]
  have n: "get_geo (Response 404 None) = unknown_geo" by blast
  from g c t r n show ?thesis by simp
qed

subsection \<open>Orchestrator: one result per target\<close>

lemma test_latency_ip: "ip (test_latency a sni obs) = a"
  by (simp add: test_latency_def Let_def split: option.splits)

lemma collect_step:
  "\<exists>r. collect threshold (results, n) (t, obs) =
          (results @ [r], if Status r = ''COLO'' then n + 1 else n) \<and> target_of r = t"
  by (cases t) (simp add: Let_def target_of_def test_latency_ip)

lemma foldl_collect:
  "\<exists>new. foldl (collect threshold) (results, n) completed =
            (results @ new, n + int (length (colo_results new))) \<and>
          map target_of new = map fst completed"
proof (induction completed arbitrary: results n)
  case Nil
  then show ?case by (simp add: colo_results_def)
next
  case (Cons c cs)
  obtain t obs where c: "c = (t, obs)" by (cases c)
  from collect_step [of threshold results n t obs] obtain r
    where step: "collect threshold (results, n) (t, obs) =
          (results @ [r], if Status r = ''COLO'' then n + 1 else n)"
      and tr: "target_of r = t" by blast
  from Cons.IH [of "results @ [r]" "if Status r = ''COLO'' then n + 1 else n"]
  obtain new where
    f: "foldl (collect threshold) (results @ [r], if Status r = ''COLO'' then n + 1 else n) cs =
          ((results @ [r]) @ new,
           (if Status r = ''COLO'' then n + 1 else n) + int (length (colo_results new)))"
    and m: "map target_of new = map fst cs" by blast
  have "foldl (collect threshold) (results, n) (c # cs) =
          (results @ (r # new), n + int (length (colo_results (r # new))))"
    using c step f by (simp add: colo_results_def)
  moreover have "map target_of (r # new) = map fst (c # cs)"
    using c tr m by simp
  ultimately show ?case by blast
qed

lemma probe_all_results:
  "\<exists>new. probe_all threshold completed = (new, int (length (colo_results new))) \<and>
          map target_of new = map fst completed"
  using foldl_collect [of threshold "[]" 0 completed] by (simp add: probe_all_def)




subsection \<open>Orchestrator: summary\<close>

lemma sum_list_ones: "sum_list (map (\<lambda>r. 1) xs) = int (length xs)"
  by (induction xs) auto

lemma colo_percentage_total:
  "colo_percentage c t = Inr (if 0 < t then of_int c / of_int t * 100 else 0)"
  by (simp add: colo_percentage_def truediv_def)

lemma html_summary_eq:
  "html_summary results =
     Inr (int (length (colo_results results)), int (length results),
          if 0 < length results
          then real (length (colo_results results)) / real (length results) * 100
          else 0)"
  by (simp add: html_summary_def colo_percentage_total sum_list_ones colo_results_def Let_def)

text \<open>
  Claim C5. Neither summary raises \<open>ZeroDivisionError\<close>: the percentage is
  \<open>colo_count / total_count * 100\<close> when \<open>total_count\<close> is positive and 0 otherwise.
  The summary at the end of \<open>main\<close>, whose \<open>colo_count\<close> is counted in the loop, is the
  summary \<open>generate_html\<close> computes from the results. A result list with six results of
  which three are COLO gives \<open>(3, 6, 50)\<close>.
\<close>

theorem summary_no_division_by_zero:
  "colo_percentage colo_count total_count =
     Inr (if 0 < total_count then of_int colo_count / of_int total_count * 100 else 0) \<and>
   html_summary results =
     Inr (int (length (colo_results results)), int (length results),
          if 0 < length results
          then real (length (colo_results results)) / real (length results) * 100
          else 0) \<and>
   main_summary (probe_all threshold completed) =
     html_summary (fst (probe_all threshold completed)) \<and>
   (length results = 6 \<and> length (colo_results results) = 3 \<longrightarrow>
      html_summary results = Inr (3, 6, 50))"
proof -
  from probe_all_results [of threshold completed] obtain new
    where p: "probe_all threshold completed = (new, int (length (colo_results new)))" by blast
  have "main_summary (new, int (length (colo_results new))) = html_summary new"
    by (simp add: html_summary_def sum_list_ones colo_results_def Let_def)
  with p have m: "main_summary (probe_all threshold completed) =
     html_summary (fst (probe_all threshold completed))" by simp
  show ?thesis
    using m by (simp add: colo_percentage_total html_summary_eq)
qed

theorem summary_no_division_by_zero_witness:
  "html_summary
     (map (\<lambda>s. \<lparr>Constant = ''A'', Category = ''Spot'', Domain_name = ''x.example.com'',
                IP = ''1.1.1.1'', Latency_ms = 5, Status = s, AWS_Region = ''No PTR'',
                Country = JNull, Region = JNull, City = JNull\<rparr>)
        [''COLO'', ''SLOW'', ''COLO'', ''FAIL'', ''SLOW'', ''COLO'']) = Inr (3, 6, 50)"
proof -
  let ?rs = "map (\<lambda>s. \<lparr>Constant = ''A'', Category = ''Spot'', Domain_name = ''x.example.com'',
                IP = ''1.1.1.1'', Latency_ms = 5, Status = s, AWS_Region = ''No PTR'',
                Country = JNull, Region = JNull, City = JNull\<rparr>)
        [''COLO'', ''SLOW'', ''COLO'', ''FAIL'', ''SLOW'', ''COLO'']"
  have h: "length ?rs = 6 \<and> length (colo_results ?rs) = 3"
    by (simp add: colo_results_def)
  from summary_no_division_by_zero [of _ _ ?rs] h show ?thesis by blast
qed

subsection \<open>Orchestrator: the resolver cache\<close>

lemma resolve_step_inv:
  assumes d: "distinct qs" and dm: "dom m = set qs"
    and ans: "\<forall>i<length qs. m (qs ! i) = Some (resolve_ips (dns i (qs ! i)))"
    and step: "resolve_step dns (m, qs) e = (m', qs')"
  shows "distinct qs' \<and> dom m' = set qs' \<and>
         (\<forall>i<length qs'. m' (qs' ! i) = Some (resolve_ips (dns i (qs' ! i)))) \<and>
         set qs' = insert (domain e) (set qs)"
proof (cases "m (domain e)")
  case None
  then have notin: "domain e \<notin> set qs" using dm by auto
  from None step have m': "m' = m(domain e \<mapsto> resolve_ips (dns (length qs) (domain e)))"
    and qs': "qs' = qs @ [domain e]" by (simp_all add: Let_def)
  have "m' (qs' ! i) = Some (resolve_ips (dns i (qs' ! i)))" if "i < length qs'" for i
  proof (cases "i < length qs")
    case True
    then have "qs' ! i = qs ! i" by (simp add: qs' nth_append)
    moreover from True notin have "qs ! i \<noteq> domain e" by (metis nth_mem)
    ultimately show ?thesis using ans True by (simp add: m')
  next
    case False
    with that have "i = length qs" by (simp add: qs')
    then show ?thesis by (simp add: m' qs')
  qed
  then have 3: "\<forall>i<length qs'. m' (qs' ! i) = Some (resolve_ips (dns i (qs' ! i)))"
    by blast
  have 1: "distinct qs'" using d notin by (simp add: qs')
  have 2: "dom m' = set qs'" using dm by (simp add: m' qs')
  have 4: "set qs' = insert (domain e) (set qs)" by (simp add: qs')
  from 1 2 3 4 show ?thesis by blast
next
  case (Some ips)
  then have "domain e \<in> set qs" using dm by auto
  then have 4: "set qs = insert (domain e) (set qs)" by auto
  from Some step have "m' = m" and "qs' = qs" by (simp_all add: Let_def)
  with d dm ans 4 show ?thesis by simp
qed

lemma foldl_resolve_inv:
  assumes "distinct qs" and "dom m = set qs"
    and "\<forall>i<length qs. m (qs ! i) = Some (resolve_ips (dns i (qs ! i)))"
    and "foldl (resolve_step dns) (m, qs) es = (m', qs')"
  shows "distinct qs' \<and> dom m' = set qs' \<and>
         (\<forall>i<length qs'. m' (qs' ! i) = Some (resolve_ips (dns i (qs' ! i)))) \<and>
         set qs' = set qs \<union> domain ` set es"
  using assms
proof (induction es arbitrary: m qs)
  case Nil
  from Nil.prems(4) have e: "m' = m" "qs' = qs" by simp_all
  have "set qs = set qs \<union> domain ` set []" by simp
  with Nil.prems(1) Nil.prems(2) Nil.prems(3) show ?case unfolding e by (intro conjI)
next
  case (Cons e es)
  obtain m1 qs1 where step: "resolve_step dns (m, qs) e = (m1, qs1)"
    by (cases "resolve_step dns (m, qs) e")
  have inv1: "distinct qs1 \<and> dom m1 = set qs1 \<and>
         (\<forall>i<length qs1. m1 (qs1 ! i) = Some (resolve_ips (dns i (qs1 ! i)))) \<and>
         set qs1 = insert (domain e) (set qs)"
    by (rule resolve_step_inv [OF Cons.prems(1) Cons.prems(2) Cons.prems(3) step])
  then have d1: "distinct qs1" by (rule conjunct1)
  from inv1 have dm1: "dom m1 = set qs1" by (rule conjunct2 [THEN conjunct1])
  from inv1 have a1: "\<forall>i<length qs1. m1 (qs1 ! i) = Some (resolve_ips (dns i (qs1 ! i)))"
    by (rule conjunct2 [THEN conjunct2, THEN conjunct1])
  from inv1 have s1: "set qs1 = insert (domain e) (set qs)"
    by (rule conjunct2 [THEN conjunct2, THEN conjunct2])
  from Cons.prems(4) step have f: "foldl (resolve_step dns) (m1, qs1) es = (m', qs')" by simp
  have inv': "distinct qs' \<and> dom m' = set qs' \<and>
         (\<forall>i<length qs'. m' (qs' ! i) = Some (resolve_ips (dns i (qs' ! i)))) \<and>
         set qs' = set qs1 \<union> domain ` set es"
    by (rule Cons.IH [OF d1 dm1 a1 f])
  have "set qs1 \<union> domain ` set es = set qs \<union> domain ` set (e # es)"
    unfolding s1 by simp
  with inv' show ?case by simp
qed

lemma endpoint_targets_ips:
  "m (domain e) = Some ips \<Longrightarrow> map target_ip (endpoint_targets m e) = ips"
  by (simp add: endpoint_targets_def target_ip_def comp_def)

text \<open>
  Claim C6. The list of the domains \<open>resolve_ips\<close> is called with has no duplicates and
  holds exactly the domains of the endpoints, so each domain is resolved once however
  many endpoints share it. The cache holds for each domain the result of that one call,
  and two endpoints with the same domain are expanded from the same cached list.
\<close>

theorem resolve_once_per_domain:
  "distinct (snd (resolve_all dns constants)) \<and>
   set (snd (resolve_all dns constants)) = domain ` set constants \<and>
   (\<forall>i<length (snd (resolve_all dns constants)).
      fst (resolve_all dns constants) (snd (resolve_all dns constants) ! i) =
        Some (resolve_ips (dns i (snd (resolve_all dns constants) ! i)))) \<and>
   (\<forall>e1\<in>set constants. \<forall>e2\<in>set constants. domain e1 = domain e2 \<longrightarrow>
      (\<exists>ips. fst (resolve_all dns constants) (domain e1) = Some ips \<and>
         map target_ip (endpoint_targets (fst (resolve_all dns constants)) e1) = ips \<and>
         map target_ip (endpoint_targets (fst (resolve_all dns constants)) e2) = ips))"
proof -
  obtain m qs where r: "resolve_all dns constants = (m, qs)"
    by (cases "resolve_all dns constants")
  then have f: "foldl (resolve_step dns) (Map.empty, []) constants = (m, qs)"
    by (simp add: resolve_all_def)
  have i1: "distinct ([]::string list)" by simp
  have i2: "dom (Map.empty::string \<rightharpoonup> string list) = set []" by simp
  have i3: "\<forall>i<length ([]::string list).
           (Map.empty::string \<rightharpoonup> string list) ([] ! i) = Some (resolve_ips (dns i ([] ! i)))"
    by simp
  have inv: "distinct qs \<and> dom m = set qs \<and>
         (\<forall>i<length qs. m (qs ! i) = Some (resolve_ips (dns i (qs ! i)))) \<and>
         set qs = set [] \<union> domain ` set constants"
    by (rule foldl_resolve_inv [OF i1 i2 i3 f])
  then have d: "distinct qs" by (rule conjunct1)
  from inv have dm: "dom m = set qs" by (rule conjunct2 [THEN conjunct1])
  from inv have a: "\<forall>i<length qs. m (qs ! i) = Some (resolve_ips (dns i (qs ! i)))"
    by (rule conjunct2 [THEN conjunct2, THEN conjunct1])
  from inv have "set qs = set [] \<union> domain ` set constants"
    by (rule conjunct2 [THEN conjunct2, THEN conjunct2])
  then have s: "set qs = domain ` set constants" by simp
  have same: "\<exists>ips. m (domain e1) = Some ips \<and>
         map target_ip (endpoint_targets m e1) = ips \<and>
         map target_ip (endpoint_targets m e2) = ips"
    if "e1 \<in> set constants" and "domain e1 = domain e2" for e1 e2
  proof -
    from that(1) have "domain e1 \<in> set qs" unfolding s by (rule imageI)
    then have "domain e1 \<in> dom m" unfolding dm .
    then obtain ips where i: "m (domain e1) = Some ips" by (auto simp only: dom_def)
    then have "m (domain e2) = Some ips" using that(2) by simp
    then have "map target_ip (endpoint_targets m e2) = ips" by (rule endpoint_targets_ips)
    moreover from i have "map target_ip (endpoint_targets m e1) = ips"
      by (rule endpoint_targets_ips)
    ultimately show ?thesis using i by blast
  qed
  have c4: "\<forall>e1\<in>set constants. \<forall>e2\<in>set constants. domain e1 = domain e2 \<longrightarrow>
      (\<exists>ips. m (domain e1) = Some ips \<and>
         map target_ip (endpoint_targets m e1) = ips \<and>
         map target_ip (endpoint_targets m e2) = ips)"
    using same by blast
  show ?thesis unfolding r fst_conv snd_conv
    using d s a c4 by (intro conjI)
qed

theorem resolve_once_per_domain_witness:
  "distinct
     (snd (resolve_all (\<lambda>n d. if n = 0 then Some [''2.2.2.2'', ''1.1.1.1''] else None)
        [\<lparr>constant_name = ''A'', category = ''Spot'', domain = ''x.example.com''\<rparr>,
         \<lparr>constant_name = ''B'', category = ''Spot'', domain = ''x.example.com''\<rparr>])) \<and>
   set
     (snd (resolve_all (\<lambda>n d. if n = 0 then Some [''2.2.2.2'', ''1.1.1.1''] else None)
        [\<lparr>constant_name = ''A'', category = ''Spot'', domain = ''x.example.com''\<rparr>,
         \<lparr>constant_name = ''B'', category = ''Spot'', domain = ''x.example.com''\<rparr>])) =
     {''x.example.com''}"
proof -
  let ?dns = "\<lambda>(n::nat) (d::string). if n = 0 then Some [''2.2.2.2'', ''1.1.1.1''] else None"
  let ?cs = "[\<lparr>constant_name = ''A'', category = ''Spot'', domain = ''x.example.com''\<rparr>,
         \<lparr>constant_name = ''B'', category = ''Spot'', domain = ''x.example.com''\<rparr>]"
  from resolve_once_per_domain [of ?dns ?cs]
  have d: "distinct (snd (resolve_all ?dns ?cs))"
    and s: "set (snd (resolve_all ?dns ?cs)) = domain ` set ?cs" by blast+
  have "domain ` set ?cs = {''x.example.com''}" by simp
  with d s show ?thesis by simp
qed

end
